theory Spec2Isabelle
  imports Main "HOL-Library.Word"
begin

unbundle bit_operations_syntax

section \<open>Executability of a file: the model of \<open>mod.ts\<close>\<close>

text \<open>
  The module exports \<open>isExecutable\<close> and \<open>isExecutableSync\<close>. Both fetch the stat of a
  path, pick the Windows rule or the POSIX rule by the host platform, and turn some
  failures into \<open>false\<close> when \<open>mayNotExist\<close> is set.

  JavaScript values are modelled as follows. Numbers that hold ids and modes are
  \<open>int\<close> (the declared type \<open>number\<close> of integral values; \<open>NaN\<close> and fractions are
  outside the model). \<open>null\<close> and \<open>undefined\<close> are \<open>None\<close>. Strings are \<open>string\<close>,
  one \<open>char\<close> per code unit, so the model covers the strings whose code units are
  below 256. A thrown value is \<open>Inl\<close> of a \<open>js_error\<close>; a returned (or resolved) value
  is \<open>Inr\<close>.
\<close>

subsection \<open>Data\<close>

text \<open>\<open>IsExecutableOptions\<close> (lines 7 to 21): three optional fields.\<close>

record IsExecutableOptions =
  mayNotExist :: "bool option"
  gid :: "int option"
  uid :: "int option"

text \<open>
  The part of \<open>node:fs\<close>'s \<open>Stats\<close> that the module reads: \<open>stat.isFile()\<close>, \<open>stat.gid\<close>,
  \<open>stat.mode\<close>, \<open>stat.uid\<close>. The three attributes are compared with \<open>null\<close> by the
  code, so they are optional here.
\<close>

record Stats =
  isFile :: bool
  stat_gid :: "int option"
  stat_mode :: "int option"
  stat_uid :: "int option"

text \<open>
  A thrown value, by what the \<open>catch\<close> blocks look at: whether it is an instance of
  \<open>Deno.errors.NotFound\<close>, and its \<open>code\<close> property (\<open>None\<close> when there is none). The
  message is carried along so that propagation can be observed.
\<close>

record js_error =
  instanceof_Deno_NotFound :: bool
  err_code :: "string option"
  err_message :: string

text \<open>
  What the module takes from its surroundings: whether the global \<open>Deno\<close> exists, the
  platform test of line 6, the process ids as \<open>node:process\<close> and \<open>Deno\<close> report them
  (\<open>getgid\<close> stands for \<open>getgid?.() ?? null\<close>, which is \<open>null\<close> where the function does
  not exist), the result of \<open>envPathExt.get()\<close> (an imported module: a list of
  extensions, or \<open>null\<close>), and the two stat functions of \<open>node:fs\<close>.
\<close>

record host =
  Deno_defined :: bool
  isOSWindows :: bool
  getgid :: "int option"
  getuid :: "int option"
  Deno_gid :: "int option"
  Deno_uid :: "int option"
  envPathExt_get :: "string list option"
  fsStat :: "string \<Rightarrow> js_error + Stats"
  fsStatSync :: "string \<Rightarrow> js_error + Stats"

subsection \<open>JavaScript primitives\<close>

text \<open>\<open>new Error(msg)\<close>: no \<open>code\<close>, not a \<open>Deno.errors.NotFound\<close>.\<close>

definition new_Error :: "string \<Rightarrow> js_error" where
  "new_Error msg = \<lparr>instanceof_Deno_NotFound = False, err_code = None, err_message = msg\<rparr>"

text \<open>
  The operators \<open>&\<close> and \<open>|\<close> convert both operands to 32-bit integers, work bitwise and
  give a signed 32-bit result.
\<close>

definition js_bitand :: "int \<Rightarrow> int \<Rightarrow> int" where
  "js_bitand a b = sint ((word_of_int a :: 32 word) AND word_of_int b)"

definition js_bitor :: "int \<Rightarrow> int \<Rightarrow> int" where
  "js_bitor a b = sint ((word_of_int a :: 32 word) OR word_of_int b)"

text \<open>\<open>Boolean(n)\<close> on an integral number.\<close>

definition Boolean :: "int \<Rightarrow> bool" where
  "Boolean n = (n \<noteq> 0)"

text \<open>
  \<open>Number.parseInt(s, radix)\<close> for a radix up to 10 and a string that starts with a
  digit of that radix (the three calls of the module): the value of the longest prefix
  of digits.
\<close>

definition is_digit_of :: "nat \<Rightarrow> char \<Rightarrow> bool" where
  "is_digit_of radix c = (48 \<le> (of_char c :: nat) \<and> (of_char c :: nat) < 48 + radix)"

definition parseInt :: "string \<Rightarrow> nat \<Rightarrow> int" where
  "parseInt s radix =
     foldl (\<lambda>acc c. acc * int radix + (int (of_char c) - 48)) 0 (takeWhile (is_digit_of radix) s)"

text \<open>
  \<open>String.prototype.toLowerCase\<close> on code units below 256: the letters \<open>A\<close> to \<open>Z\<close> and the
  Latin-1 capitals (192 to 214 and 216 to 222) move up by 32, everything else stays.
\<close>

definition toLowerCase_unit :: "char \<Rightarrow> char" where
  "toLowerCase_unit c =
     (let n = (of_char c :: nat)
      in if (65 \<le> n \<and> n \<le> 90) \<or> (192 \<le> n \<and> n \<le> 214) \<or> (216 \<le> n \<and> n \<le> 222)
         then char_of (n + 32) else c)"

definition toLowerCase :: "string \<Rightarrow> string" where
  "toLowerCase s = map toLowerCase_unit s"

text \<open>\<open>String.prototype.slice(a, b)\<close> for \<open>0 \<le> a \<le> b \<le> length\<close>.\<close>

definition js_slice :: "string \<Rightarrow> int \<Rightarrow> int \<Rightarrow> string" where
  "js_slice s a b = take (nat (b - a)) (drop (nat a) s)"

subsection \<open>\<open>extname\<close> of \<open>node:path\<close> on Windows\<close>

text \<open>
  The module imports \<open>extname\<close> from \<open>node:path\<close> (line 3) and calls it in the Windows
  rule only, which is reached when \<open>platform === "win32"\<close>; there \<open>node:path\<close> is its
  \<open>win32\<close> flavour. The function is not part of the module: the definitions below
  follow \<open>win32.extname\<close> of Node.js (\<open>lib/path.js\<close>), statement by statement. It skips a
  drive prefix, scans the path from the right and keeps five variables, the fields of
  \<open>extname_state\<close>; \<open>-1\<close> means "not seen yet". \<open>has_drive_prefix\<close> is the condition of
  its first \<open>if\<close>.
\<close>

definition isPathSeparator :: "char \<Rightarrow> bool" where
  "isPathSeparator c = (c = CHR ''/'' \<or> c = CHR 0x5C)"

definition isWindowsDeviceRoot :: "char \<Rightarrow> bool" where
  "isWindowsDeviceRoot c =
     (let n = (of_char c :: nat) in (65 \<le> n \<and> n \<le> 90) \<or> (97 \<le> n \<and> n \<le> 122))"

record extname_state =
  startDot :: int
  startPart :: int
  end' :: int
  matchedSlash :: bool
  preDotState :: int

text \<open>
  The loop \<open>for (let i = path.length - 1; i >= start; --i)\<close>. The third argument is
  \<open>i + 1\<close>. A separator after the first non-separator ends the loop (\<open>break\<close>); a
  separator before it is skipped (\<open>continue\<close>).
\<close>

fun extname_loop :: "string \<Rightarrow> nat \<Rightarrow> nat \<Rightarrow> extname_state \<Rightarrow> extname_state" where
  "extname_loop path start 0 s = s"
| "extname_loop path start (Suc i) s =
     (if i < start then s
      else if isPathSeparator (path ! i) then
        (if \<not> matchedSlash s then s\<lparr>startPart := int i + 1\<rparr>
         else extname_loop path start i s)
      else
        extname_loop path start i
          (let s1 = (if end' s = - 1 then s\<lparr>end' := int i + 1, matchedSlash := False\<rparr> else s)
           in if path ! i = CHR ''.'' then
                (if startDot s1 = - 1 then s1\<lparr>startDot := int i\<rparr>
                 else if preDotState s1 \<noteq> 1 then s1\<lparr>preDotState := 1\<rparr>
                 else s1)
              else if startDot s1 \<noteq> - 1 then s1\<lparr>preDotState := - 1\<rparr>
              else s1))"

definition has_drive_prefix :: "string \<Rightarrow> bool" where
  "has_drive_prefix path =
     (2 \<le> length path \<and> path ! 1 = CHR '':'' \<and> isWindowsDeviceRoot (path ! 0))"

definition extname :: "string \<Rightarrow> string" where
  "extname path =
     (let start = (if has_drive_prefix path then 2 else 0);
          s = extname_loop path start (length path)
                \<lparr>startDot = - 1, startPart = int start, end' = - 1,
                 matchedSlash = True, preDotState = 0\<rparr>
      in if startDot s = - 1 \<or> end' s = - 1 \<or> preDotState s = 0 \<or>
            (preDotState s = 1 \<and> startDot s = end' s - 1 \<and> startDot s = startPart s + 1)
         then []
         else js_slice path (startDot s) (end' s))"

subsection \<open>The POSIX rule\<close>

text \<open>Lines 33 and 34: the option when it is there, the process's id otherwise.\<close>

definition ownGid :: "host \<Rightarrow> IsExecutableOptions \<Rightarrow> int option" where
  "ownGid h options =
     (case gid options of
        Some g \<Rightarrow> Some g
      | None \<Rightarrow> (if \<not> Deno_defined h then getgid h else Deno_gid h))"

definition ownUid :: "host \<Rightarrow> IsExecutableOptions \<Rightarrow> int option" where
  "ownUid h options =
     (case uid options of
        Some u \<Rightarrow> Some u
      | None \<Rightarrow> (if \<not> Deno_defined h then getuid h else Deno_uid h))"

text \<open>Lines 53 to 55: the three masks \<open>g\<close>, \<open>o\<close> and \<open>u\<close>.\<close>

definition mask_g :: int where
  "mask_g = parseInt ''010'' 8"

definition mask_o :: int where
  "mask_o = parseInt ''001'' 8"

definition mask_u :: int where
  "mask_u = parseInt ''100'' 8"

text \<open>\<open>isExecutablePosix\<close> (lines 29 to 62), check by check in the source's order.\<close>

definition isExecutablePosix :: "host \<Rightarrow> Stats \<Rightarrow> IsExecutableOptions \<Rightarrow> js_error + bool" where
  "isExecutablePosix h stat options =
     (if \<not> isFile stat then Inr False
      else case ownGid h options of
        None \<Rightarrow> Inl (new_Error ''Unable to get the group ID of the process!'')
      | Some ownG \<Rightarrow>
     (case ownUid h options of
        None \<Rightarrow> Inl (new_Error ''Unable to get the user ID of the process!'')
      | Some ownU \<Rightarrow>
     (case stat_gid stat of
        None \<Rightarrow> Inl (new_Error ''Unable to get the group ID of the file!'')
      | Some pathGid \<Rightarrow>
     (case stat_mode stat of
        None \<Rightarrow> Inl (new_Error ''Unable to get the mode of the file!'')
      | Some pathMode \<Rightarrow>
     (case stat_uid stat of
        None \<Rightarrow> Inl (new_Error ''Unable to get the user ID of the file!'')
      | Some pathUid \<Rightarrow>
          Inr (Boolean (js_bitand pathMode mask_o) \<or>
               (Boolean (js_bitand pathMode mask_g) \<and> ownG = pathGid) \<or>
               (Boolean (js_bitand pathMode mask_u) \<and> pathUid = ownU) \<or>
               (Boolean (js_bitand pathMode (js_bitor mask_u mask_g)) \<and> ownU = 0)))))))"

subsection \<open>The Windows rule\<close>

text \<open>\<open>isExecutableWindows\<close> (lines 70 to 81); it throws nothing.\<close>

definition isExecutableWindows :: "host \<Rightarrow> Stats \<Rightarrow> string \<Rightarrow> bool" where
  "isExecutableWindows h stat filePath =
     (if \<not> isFile stat then False
      else case envPathExt_get h of
        None \<Rightarrow> True
      | Some pathExts \<Rightarrow>
          toLowerCase (extname filePath) \<in> set (map toLowerCase pathExts))"

subsection \<open>The two queries\<close>

text \<open>
  The \<open>catch\<close> block of both queries (lines 105 to 113 and 139 to 147): \<open>false\<close> for the
  failures it recovers, the caught value thrown again otherwise.
\<close>

definition catch_block :: "host \<Rightarrow> bool \<Rightarrow> js_error \<Rightarrow> js_error + bool" where
  "catch_block h mayNotExist' error =
     (if mayNotExist' \<and>
         ((Deno_defined h \<and> instanceof_Deno_NotFound error) \<or> err_code error = Some ''EACCES'')
      then Inr False
      else Inl error)"

text \<open>
  \<open>isExecutable\<close> (lines 97 to 114). The rejected promise is \<open>Inl\<close>, the resolved one
  \<open>Inr\<close>. The \<open>try\<close> block covers the stat and the rule.
\<close>

definition isExecutable :: "host \<Rightarrow> string \<Rightarrow> IsExecutableOptions \<Rightarrow> js_error + bool" where
  "isExecutable h filePath options =
     (let mayNotExist' = (case mayNotExist options of None \<Rightarrow> False | Some b \<Rightarrow> b)
      in case (case fsStat h filePath of
                 Inl error \<Rightarrow> Inl error
               | Inr pathStat \<Rightarrow>
                   if isOSWindows h then Inr (isExecutableWindows h pathStat filePath)
                   else isExecutablePosix h pathStat options) of
           Inr result \<Rightarrow> Inr result
         | Inl error \<Rightarrow> catch_block h mayNotExist' error)"

text \<open>\<open>isExecutableSync\<close> (lines 131 to 148).\<close>

definition isExecutableSync :: "host \<Rightarrow> string \<Rightarrow> IsExecutableOptions \<Rightarrow> js_error + bool" where
  "isExecutableSync h filePath options =
     (let mayNotExist' = (case mayNotExist options of None \<Rightarrow> False | Some b \<Rightarrow> b)
      in case (case fsStatSync h filePath of
                 Inl error \<Rightarrow> Inl error
               | Inr pathStat \<Rightarrow>
                   if isOSWindows h then Inr (isExecutableWindows h pathStat filePath)
                   else isExecutablePosix h pathStat options) of
           Inr result \<Rightarrow> Inr result
         | Inl error \<Rightarrow> catch_block h mayNotExist' error)"

subsection \<open>The failure kinds of the specification\<close>

text \<open>
  The specification speaks of a failure whose kind is "path does not exist" or
  "permission denied". On a thrown value these are read as follows: a missing path is
  a \<open>Deno.errors.NotFound\<close> or carries the code \<open>ENOENT\<close> (what \<open>node:fs\<close> reports);
  a denied access carries the code \<open>EACCES\<close>.
\<close>

definition is_not_found :: "js_error \<Rightarrow> bool" where
  "is_not_found e = (instanceof_Deno_NotFound e \<or> err_code e = Some ''ENOENT'')"

definition is_permission_denied :: "js_error \<Rightarrow> bool" where
  "is_permission_denied e = (err_code e = Some ''EACCES'')"

subsection \<open>The extension in the specification's words\<close>

text \<open>
  The specification describes the extension as the substring from the last \<open>.\<close> to the
  end, including the dot, and the empty string if there is none. \<open>spec_extension\<close> is
  that description.
\<close>

definition spec_extension :: "string \<Rightarrow> string" where
  "spec_extension p =
     (if CHR ''.'' \<in> set p then CHR ''.'' # rev (takeWhile (\<lambda>c. c \<noteq> CHR ''.'') (rev p)) else [])"

text \<open>
  The last component of a path: what is left of the separator before it, once a drive
  prefix is skipped and the trailing separators are dropped.
\<close>

definition last_component :: "string \<Rightarrow> string" where
  "last_component path =
     (let rest = (if has_drive_prefix path then drop 2 path else path)
      in rev (takeWhile (\<lambda>c. \<not> isPathSeparator c) (dropWhile isPathSeparator (rev rest))))"

text \<open>
  The extension of a component: the specification's extension, except that it is empty
  when the only \<open>.\<close> is the first character and when the component is \<open>..\<close>.
\<close>

definition component_extension :: "string \<Rightarrow> string" where
  "component_extension base =
     (if (base \<noteq> [] \<and> hd base = CHR ''.'' \<and> CHR ''.'' \<notin> set (tl base)) \<or> base = ''..''
      then [] else spec_extension base)"

subsection \<open>Example hosts and files\<close>

text \<open>The error of \<open>node:fs\<close> for a missing path, and an error of another kind.\<close>

definition enoent :: js_error where
  "enoent = \<lparr>instanceof_Deno_NotFound = False, err_code = Some ''ENOENT'',
             err_message = ''ENOENT: no such file or directory, stat /missing/path''\<rparr>"

definition eio :: js_error where
  "eio = \<lparr>instanceof_Deno_NotFound = False, err_code = Some ''EIO'',
          err_message = ''EIO: i/o error, stat /dev/broken''\<rparr>"

text \<open>A regular file with mode \<open>0o100\<close>, owned by user 500 and group 50; a directory.\<close>

definition owner_exec_file :: Stats where
  "owner_exec_file =
     \<lparr>isFile = True, stat_gid = Some 50, stat_mode = Some 64, stat_uid = Some 500\<rparr>"

definition directory :: Stats where
  "directory = \<lparr>isFile = False, stat_gid = None, stat_mode = None, stat_uid = None\<rparr>"

text \<open>
  A POSIX host running Node.js (no global \<open>Deno\<close>), process ids 1000 and 1000, and the
  same host without process ids; a Windows host with and without an extension list.
\<close>

definition node_stat :: "string \<Rightarrow> js_error + Stats" where
  "node_stat p =
     (if p = ''/missing/path'' then Inl enoent
      else if p = ''/dev/broken'' then Inl eio
      else Inr owner_exec_file)"

definition node_host :: host where
  "node_host =
     \<lparr>Deno_defined = False, isOSWindows = False,
      getgid = Some 1000, getuid = Some 1000, Deno_gid = None, Deno_uid = None,
      envPathExt_get = None, fsStat = node_stat, fsStatSync = node_stat\<rparr>"

definition anonymous_host :: host where
  "anonymous_host = node_host\<lparr>getgid := None, getuid := None\<rparr>"

definition windows_host :: host where
  "windows_host =
     \<lparr>Deno_defined = True, isOSWindows = True,
      getgid = None, getuid = None, Deno_gid = None, Deno_uid = None,
      envPathExt_get = Some [''.exe''], fsStat = node_stat, fsStatSync = node_stat\<rparr>"

definition windows_host_no_list :: host where
  "windows_host_no_list = windows_host\<lparr>envPathExt_get := None\<rparr>"

text \<open>
  A regular file with mode \<open>0o010\<close>, owned by user 500 and group 50, and the POSIX host
  whose every path is that file.
\<close>

definition group_exec_file :: Stats where
  "group_exec_file =
     \<lparr>isFile = True, stat_gid = Some 50, stat_mode = Some 8, stat_uid = Some 500\<rparr>"

definition group_file_host :: host where
  "group_file_host =
     node_host\<lparr>fsStat := (\<lambda>p. Inr group_exec_file), fsStatSync := (\<lambda>p. Inr group_exec_file)\<rparr>"

section \<open>Properties\<close>

subsection \<open>The masks and the bit tests\<close>

lemma mask_o_eq: "mask_o = 1"
  by (simp add: mask_o_def parseInt_def is_digit_of_def)

lemma mask_g_eq: "mask_g = 8"
  by (simp add: mask_g_def parseInt_def is_digit_of_def)

lemma mask_u_eq: "mask_u = 64"
  by (simp add: mask_u_def parseInt_def is_digit_of_def)

text \<open>
  Testing a mode against a one-bit mask with \<open>&\<close> reads that bit of the mode, whatever
  the size or the sign of the mode: the conversion to 32 bits keeps the low bits.
\<close>

lemma Boolean_js_bitand_pow:
  assumes "n < 32"
  shows "Boolean (js_bitand m (2 ^ n)) = bit m n"
proof -
  have "Boolean (js_bitand m (2 ^ n)) = ((word_of_int m :: 32 word) AND 2 ^ n \<noteq> 0)"
    by (simp add: js_bitand_def Boolean_def signed_eq_0_iff)
  also have "\<dots> = bit (word_of_int m :: 32 word) n"
    by (simp add: and_exp_eq_0_iff_not_bit)
  also have "\<dots> = bit m n"
    using assms by (simp add: bit_word_of_int_iff)
  finally show ?thesis .
qed

lemma Boolean_mask_o: "Boolean (js_bitand m mask_o) = bit m 0"
  using Boolean_js_bitand_pow [of 0 m] by (simp add: mask_o_eq)

lemma Boolean_mask_g: "Boolean (js_bitand m mask_g) = bit m 3"
  using Boolean_js_bitand_pow [of 3 m] by (simp add: mask_g_eq)

lemma Boolean_mask_u: "Boolean (js_bitand m mask_u) = bit m 6"
  using Boolean_js_bitand_pow [of 6 m] by (simp add: mask_u_eq)

lemma js_bitor_u_g: "js_bitor mask_u mask_g = 72"
  by (simp add: js_bitor_def mask_u_eq mask_g_eq)

lemma Boolean_mask_u_g:
  "Boolean (js_bitand m (js_bitor mask_u mask_g)) = (bit m 6 \<or> bit m 3)"
proof -
  let ?w = "word_of_int m :: 32 word"
  have split: "(72 :: 32 word) = 2 ^ 6 OR 2 ^ 3"
    by simp
  have "Boolean (js_bitand m (js_bitor mask_u mask_g)) = (?w AND 72 \<noteq> 0)"
    by (simp add: js_bitor_u_g js_bitand_def Boolean_def signed_eq_0_iff)
  also have "\<dots> = (?w AND 2 ^ 6 \<noteq> 0 \<or> ?w AND 2 ^ 3 \<noteq> 0)"
    unfolding split by (simp only: bit.conj_disj_distrib or_eq_0_iff de_Morgan_conj)
  also have "\<dots> = (bit ?w 6 \<or> bit ?w 3)"
    by (simp only: and_exp_eq_0_iff_not_bit not_not)
  also have "\<dots> = (bit m 6 \<or> bit m 3)"
    by (simp add: bit_word_of_int_iff)
  finally show ?thesis .
qed

subsection \<open>The POSIX rule\<close>

lemma isExecutablePosix_regular:
  assumes "isFile stat"
    and "ownGid h options = Some og" and "ownUid h options = Some ou"
    and "stat_gid stat = Some pg" and "stat_mode stat = Some m" and "stat_uid stat = Some pu"
  shows "isExecutablePosix h stat options =
           Inr (bit m 0 \<or> (bit m 3 \<and> og = pg) \<or> (bit m 6 \<and> pu = ou) \<or>
                ((bit m 6 \<or> bit m 3) \<and> ou = 0))"
  using assms
  by (simp add: isExecutablePosix_def Boolean_mask_o Boolean_mask_g Boolean_mask_u
      Boolean_mask_u_g)

lemma isExecutablePosix_not_file:
  "\<not> isFile stat \<Longrightarrow> isExecutablePosix h stat options = Inr False"
  by (simp add: isExecutablePosix_def)

lemma isExecutableWindows_not_file:
  "\<not> isFile stat \<Longrightarrow> isExecutableWindows h stat filePath = False"
  by (simp add: isExecutableWindows_def)

text \<open>
  Claim C2. For a regular file whose mode, owner user id and owner group id are
  present, and an identity \<open>(uid, gid)\<close>, the POSIX rule returns \<open>true\<close> exactly when the
  other-execute bit (\<open>0o001\<close>, bit 0) is set, or the group-execute bit (\<open>0o010\<close>, bit 3)
  is set and the gid is the file's group, or the owner-execute bit (\<open>0o100\<close>, bit 6) is
  set and the uid is the file's owner, or one of the owner-execute and group-execute
  bits is set and the uid is 0; it returns \<open>false\<close> otherwise.
\<close>

theorem isExecutablePosix_iff:
  assumes "isFile stat"
    and "stat_mode stat = Some m"
    and "stat_uid stat = Some ownerUserId"
    and "stat_gid stat = Some ownerGroupId"
    and "ownUid h options = Some uid'"
    and "ownGid h options = Some gid'"
  shows "isExecutablePosix h stat options =
           Inr (bit m 0 \<or>
                (bit m 3 \<and> gid' = ownerGroupId) \<or>
                (bit m 6 \<and> uid' = ownerUserId) \<or>
                ((bit m 6 \<or> bit m 3) \<and> uid' = 0))"
proof -
  have "isExecutablePosix h stat options =
          Inr (bit m 0 \<or>
               (bit m 3 \<and> gid' = ownerGroupId) \<or>
               (bit m 6 \<and> ownerUserId = uid') \<or>
               ((bit m 6 \<or> bit m 3) \<and> uid' = 0))"
    by (rule isExecutablePosix_regular) (simp_all add: assms)
  then show ?thesis
    by auto
qed

theorem isExecutablePosix_iff_witness:
  "isFile owner_exec_file \<and> stat_mode owner_exec_file = Some 64 \<and>
   stat_uid owner_exec_file = Some 500 \<and> stat_gid owner_exec_file = Some 50 \<and>
   ownUid node_host \<lparr>mayNotExist = None, gid = None, uid = Some 500\<rparr> = Some 500 \<and>
   ownGid node_host \<lparr>mayNotExist = None, gid = None, uid = Some 500\<rparr> = Some 1000 \<and>
   isExecutablePosix node_host owner_exec_file \<lparr>mayNotExist = None, gid = None, uid = Some 500\<rparr>
     = Inr True"
  using isExecutablePosix_iff [of owner_exec_file 64 500 50 node_host
      "\<lparr>mayNotExist = None, gid = None, uid = Some 500\<rparr>" 500 1000]
  by (simp add: owner_exec_file_def node_host_def ownUid_def ownGid_def)

text \<open>
  Claim C4. For a stat that is not a regular file, the POSIX rule and the Windows rule
  both return \<open>false\<close>, whatever the mode bits, the identity, the path and the extension
  list are.
\<close>

theorem not_file_never_executable:
  assumes "\<not> isFile stat"
  shows "isExecutablePosix h stat options = Inr False \<and>
         isExecutableWindows h' stat filePath = False"
  using assms by (simp add: isExecutablePosix_not_file isExecutableWindows_not_file)

theorem not_file_never_executable_witness:
  "\<not> isFile (owner_exec_file\<lparr>isFile := False, stat_mode := Some 511\<rparr>) \<and>
   isExecutablePosix node_host (owner_exec_file\<lparr>isFile := False, stat_mode := Some 511\<rparr>)
     \<lparr>mayNotExist = None, gid = None, uid = Some 0\<rparr> = Inr False \<and>
   isExecutableWindows windows_host_no_list
     (owner_exec_file\<lparr>isFile := False, stat_mode := Some 511\<rparr>) ''run.exe'' = False"
  using not_file_never_executable
    [of "owner_exec_file\<lparr>isFile := False, stat_mode := Some 511\<rparr>" node_host
      "\<lparr>mayNotExist = None, gid = None, uid = Some 0\<rparr>" windows_host_no_list "''run.exe''"]
  by (simp add: owner_exec_file_def)

text \<open>
  Claim C5. For a regular file with mode \<open>0o100\<close> whose owner is not the identity's
  uid, the POSIX rule returns \<open>true\<close> when the identity's uid is 0.
\<close>

theorem superuser_bypass:
  assumes "isFile stat"
    and "stat_mode stat = Some 64"
    and "stat_uid stat = Some ownerUserId"
    and "stat_gid stat = Some ownerGroupId"
    and "ownUid h options = Some 0"
    and "ownGid h options = Some gid'"
    and "ownerUserId \<noteq> 0"
  shows "isExecutablePosix h stat options = Inr True"
  using assms by (simp add: isExecutablePosix_regular [where og = gid' and ou = 0])

theorem superuser_bypass_witness:
  "isFile owner_exec_file \<and> stat_mode owner_exec_file = Some 64 \<and>
   stat_uid owner_exec_file = Some 500 \<and> stat_gid owner_exec_file = Some 50 \<and>
   ownUid node_host \<lparr>mayNotExist = None, gid = None, uid = Some 0\<rparr> = Some 0 \<and>
   ownGid node_host \<lparr>mayNotExist = None, gid = None, uid = Some 0\<rparr> = Some 1000 \<and>
   (500 :: int) \<noteq> 0 \<and>
   isExecutablePosix node_host owner_exec_file \<lparr>mayNotExist = None, gid = None, uid = Some 0\<rparr>
     = Inr True"
  using superuser_bypass [of owner_exec_file 500 50 node_host
      "\<lparr>mayNotExist = None, gid = None, uid = Some 0\<rparr>" 1000]
  by (simp add: owner_exec_file_def node_host_def ownUid_def ownGid_def)

text \<open>
  Claim C10. For a stat that is not a regular file, the POSIX rule returns \<open>false\<close>
  before it resolves an identity or reads the mode and the owner ids: it throws
  nothing, also when the process ids are unavailable, no override is given, and the
  stat has no mode and no owner ids.
\<close>

theorem not_file_no_error:
  assumes "\<not> isFile stat"
  shows "isExecutablePosix h stat options = Inr False \<and>
         isExecutablePosix
           (h\<lparr>getgid := None, getuid := None, Deno_gid := None, Deno_uid := None\<rparr>)
           (stat\<lparr>stat_gid := None, stat_mode := None, stat_uid := None\<rparr>)
           (options\<lparr>gid := None, uid := None\<rparr>) = Inr False"
  using assms by (simp add: isExecutablePosix_not_file)

theorem not_file_no_error_witness:
  "\<not> isFile directory \<and>
   ownGid anonymous_host \<lparr>mayNotExist = None, gid = None, uid = None\<rparr> = None \<and>
   ownUid anonymous_host \<lparr>mayNotExist = None, gid = None, uid = None\<rparr> = None \<and>
   stat_mode directory = None \<and> stat_uid directory = None \<and> stat_gid directory = None \<and>
   isExecutablePosix anonymous_host directory \<lparr>mayNotExist = None, gid = None, uid = None\<rparr>
     = Inr False"
  using not_file_no_error [of directory anonymous_host
      "\<lparr>mayNotExist = None, gid = None, uid = None\<rparr>"]
  by (simp add: directory_def anonymous_host_def node_host_def ownGid_def ownUid_def)

subsection \<open>The Windows rule\<close>

text \<open>
  Claim C6. For a regular file and any path, the Windows rule returns \<open>true\<close> when there
  is no extension list (\<open>envPathExt.get()\<close> is \<open>null\<close>).
\<close>

theorem no_extension_list_executable:
  assumes "isFile stat"
    and "envPathExt_get h = None"
  shows "isExecutableWindows h stat filePath = True"
  using assms by (simp add: isExecutableWindows_def)

theorem no_extension_list_executable_witness:
  "isFile owner_exec_file \<and> envPathExt_get windows_host_no_list = None \<and>
   isExecutableWindows windows_host_no_list owner_exec_file ''run.txt'' = True"
  using no_extension_list_executable [of owner_exec_file windows_host_no_list "''run.txt''"]
  by (simp add: owner_exec_file_def windows_host_no_list_def windows_host_def)

subsection \<open>\<open>extname\<close> in the specification's terms\<close>

lemma state_preDot_same [simp]: "preDotState s = v \<Longrightarrow> s\<lparr>preDotState := v\<rparr> = s"
  by (cases s) simp

lemma state_startPart_same: "startPart s = v \<Longrightarrow> s\<lparr>startPart := v\<rparr> = s"
  by (cases s) simp

lemma dot_not_separator [simp]: "\<not> isPathSeparator CHR ''.''"
  by (simp add: isPathSeparator_def)

lemma loop_skip_separators:
  assumes "start \<le> b" and "matchedSlash s"
    and "\<forall>i. b \<le> i \<and> i < b + m \<longrightarrow> isPathSeparator (p ! i)"
  shows "extname_loop p start (b + m) s = extname_loop p start b s"
  using assms by (induction m) simp_all

lemma loop_plain:
  assumes "start \<le> k" and "startDot s = - 1"
    and "\<forall>i. k \<le> i \<and> i < k + m \<longrightarrow> \<not> isPathSeparator (p ! i) \<and> p ! i \<noteq> CHR ''.''"
  shows "extname_loop p start (k + m) s =
         extname_loop p start k
           (if 0 < m \<and> end' s = - 1 then s\<lparr>end' := int (k + m), matchedSlash := False\<rparr> else s)"
  using assms
proof (induction m arbitrary: s)
  case 0
  then show ?case by simp
next
  case (Suc m)
  let ?s1 = "if end' s = - 1 then s\<lparr>end' := int (k + m) + 1, matchedSlash := False\<rparr> else s"
  have here: "\<not> isPathSeparator (p ! (k + m))" "p ! (k + m) \<noteq> CHR ''.''"
    using Suc.prems(3) by simp_all
  have step: "extname_loop p start (k + Suc m) s = extname_loop p start (k + m) ?s1"
    using Suc.prems(1,2) here by simp
  have "extname_loop p start (k + m) ?s1 =
        extname_loop p start k
          (if 0 < m \<and> end' ?s1 = - 1 then ?s1\<lparr>end' := int (k + m), matchedSlash := False\<rparr> else ?s1)"
    using Suc.prems by (intro Suc.IH) simp_all
  also have "(if 0 < m \<and> end' ?s1 = - 1 then ?s1\<lparr>end' := int (k + m), matchedSlash := False\<rparr> else ?s1)
     = (if 0 < Suc m \<and> end' s = - 1 then s\<lparr>end' := int (k + Suc m), matchedSlash := False\<rparr> else s)"
    by (simp add: add.commute)
  finally show ?case using step by simp
qed

lemma loop_dot:
  assumes "start \<le> k" and "p ! k = CHR ''.''" and "startDot s = - 1"
  shows "extname_loop p start (Suc k) s =
         extname_loop p start k
           ((if end' s = - 1 then s\<lparr>end' := int k + 1, matchedSlash := False\<rparr> else s)
              \<lparr>startDot := int k\<rparr>)"
  using assms by simp

lemma loop_before_dot:
  assumes "start \<le> a" and "startDot s \<noteq> - 1" and "end' s \<noteq> - 1"
    and "\<forall>i. a \<le> i \<and> i < a + Suc m \<longrightarrow> \<not> isPathSeparator (p ! i)"
  shows "extname_loop p start (a + Suc m) s =
         extname_loop p start a (s\<lparr>preDotState := (if p ! a = CHR ''.'' then 1 else - 1)\<rparr>)"
  using assms
proof (induction m arbitrary: s)
  case 0
  then show ?case by simp
next
  case (Suc m)
  let ?i = "a + Suc m"
  let ?s2 = "s\<lparr>preDotState := (if p ! ?i = CHR ''.'' then 1 else - 1)\<rparr>"
  have here: "\<not> isPathSeparator (p ! ?i)"
    using Suc.prems(4) by simp
  have step: "extname_loop p start (a + Suc (Suc m)) s = extname_loop p start ?i ?s2"
    using Suc.prems(1,2,3) here by simp
  have "extname_loop p start ?i ?s2 =
        extname_loop p start a (?s2\<lparr>preDotState := (if p ! a = CHR ''.'' then 1 else - 1)\<rparr>)"
    using Suc.prems by (intro Suc.IH) simp_all
  then show ?case using step by simp
qed

lemma loop_at_start: "extname_loop p start start s = s"
  by (cases start) simp_all

lemma loop_stop:
  assumes "\<not> matchedSlash s" and "startPart s = int start"
    and "a = start \<or> (start < a \<and> isPathSeparator (p ! (a - 1)))"
  shows "extname_loop p start a s = s\<lparr>startPart := int a\<rparr>"
proof (cases "a = start")
  case True
  then show ?thesis
    using assms(2) by (simp add: loop_at_start state_startPart_same)
next
  case False
  then obtain j where j: "a = Suc j" "start \<le> j" "isPathSeparator (p ! j)"
    using assms(3) by (cases a) auto
  then show ?thesis
    using assms(1) by simp
qed


lemma spec_extension_split:
  assumes "CHR ''.'' \<notin> set suf"
  shows "spec_extension (pre @ CHR ''.'' # suf) = CHR ''.'' # suf"
proof -
  have "takeWhile (\<lambda>c. c \<noteq> CHR ''.'') (rev suf @ CHR ''.'' # rev pre) = rev suf"
    using assms by (subst takeWhile_append2) auto
  then show ?thesis
    by (simp add: spec_extension_def)
qed

lemma nth_in_middle:
  assumes "length xs \<le> i" and "i < length xs + length ys"
  shows "(xs @ ys @ zs) ! i \<in> set ys"
proof -
  have "(xs @ ys @ zs) ! i = ys ! (i - length xs)"
    using assms by (auto simp: nth_append)
  moreover have "ys ! (i - length xs) \<in> set ys"
    using assms by (intro nth_mem) simp
  ultimately show ?thesis
    by simp
qed

lemma last_dot_split:
  assumes "CHR ''.'' \<in> set base"
  shows "\<exists>pre suf. base = pre @ CHR ''.'' # suf \<and> CHR ''.'' \<notin> set suf"
  using assms by (metis split_list_last)

text \<open>
  The scan in three stretches: the trailing separators, the last component, and the
  separator (or the start) that ends it.
\<close>

lemma scan_trailing:
  assumes p: "p = front @ base @ trail"
    and start: "start \<le> length front"
    and trail: "\<forall>c \<in> set trail. isPathSeparator c"
    and ms: "matchedSlash s"
  shows "extname_loop p start (length p) s =
         extname_loop p start (length front + length base) s"
proof -
  have "p ! i \<in> set trail"
    if "length (front @ base) \<le> i" "i < length (front @ base) + length trail" for i
    using nth_in_middle [OF that, of "[]"] by (simp add: p)
  then have "\<forall>i. length front + length base \<le> i \<and> i < length front + length base + length trail
      \<longrightarrow> isPathSeparator (p ! i)"
    using trail by simp
  moreover have "length p = length front + length base + length trail"
    by (simp add: p)
  ultimately show ?thesis
    using start ms by (simp add: loop_skip_separators)
qed

lemma scan_no_component:
  assumes p: "p = front @ trail"
    and start: "start = length front"
    and trail: "\<forall>c \<in> set trail. isPathSeparator c"
    and ms: "matchedSlash s"
  shows "extname_loop p start (length p) s = s"
  using scan_trailing [of p front "[]" trail start s] assms by (simp add: loop_at_start)

lemma scan_component_plain:
  assumes p: "p = front @ base @ trail"
    and start: "start \<le> length front"
    and stop: "length front = start \<or> isPathSeparator (p ! (length front - 1))"
    and base: "\<forall>c \<in> set base. \<not> isPathSeparator c"
    and trail: "\<forall>c \<in> set trail. isPathSeparator c"
    and s0: "s0 = \<lparr>startDot = - 1, startPart = int start, end' = - 1,
                   matchedSlash = True, preDotState = 0\<rparr>"
    and nonempty: "base \<noteq> []"
    and no_dot: "CHR ''.'' \<notin> set base"
  shows "extname_loop p start (length p) s0 =
         s0\<lparr>end' := int (length front + length base), matchedSlash := False,
            startPart := int (length front)\<rparr>"
proof -
  let ?a = "length front"
  let ?b = "?a + length base"
  have in_base: "p ! i \<in> set base" if "?a \<le> i" "i < ?a + length base" for i
    unfolding p using that by (rule nth_in_middle)
  have plain: "\<forall>i. ?a \<le> i \<and> i < ?a + length base \<longrightarrow>
      \<not> isPathSeparator (p ! i) \<and> p ! i \<noteq> CHR ''.''"
    using base no_dot in_base by metis
  have stop': "?a = start \<or> (start < ?a \<and> isPathSeparator (p ! (?a - 1)))"
    using start stop by auto
  have "extname_loop p start (length p) s0 = extname_loop p start ?b s0"
    using p start trail by (rule scan_trailing) (simp add: s0)
  also have "\<dots> = extname_loop p start ?a (s0\<lparr>end' := int ?b, matchedSlash := False\<rparr>)"
    using loop_plain [OF start _ plain, of s0] nonempty by (simp add: s0)
  also have "\<dots> = s0\<lparr>end' := int ?b, matchedSlash := False\<rparr>\<lparr>startPart := int ?a\<rparr>"
    using stop' by (intro loop_stop) (simp_all add: s0)
  finally show ?thesis
    by simp
qed

lemma scan_component_dot:
  assumes p: "p = front @ (pre @ CHR ''.'' # suf) @ trail"
    and start: "start \<le> length front"
    and stop: "length front = start \<or> isPathSeparator (p ! (length front - 1))"
    and base: "\<forall>c \<in> set (pre @ CHR ''.'' # suf). \<not> isPathSeparator c"
    and trail: "\<forall>c \<in> set trail. isPathSeparator c"
    and s0: "s0 = \<lparr>startDot = - 1, startPart = int start, end' = - 1,
                   matchedSlash = True, preDotState = 0\<rparr>"
    and last_dot: "CHR ''.'' \<notin> set suf"
  shows "extname_loop p start (length p) s0 =
         \<lparr>startDot = int (length front + length pre),
          startPart = int (length front),
          end' = int (length front + length pre + 1 + length suf),
          matchedSlash = False,
          preDotState = (if pre = [] then 0 else if hd pre = CHR ''.'' then 1 else - 1)\<rparr>"
proof -
  let ?base = "pre @ CHR ''.'' # suf"
  let ?a = "length front"
  let ?k = "?a + length pre"
  let ?b = "?a + length ?base"
  have in_base: "p ! i \<in> set ?base" if "?a \<le> i" "i < ?a + length ?base" for i
    unfolding p using that by (rule nth_in_middle)
  have nonseps: "\<forall>i. ?a \<le> i \<and> i < ?a + length ?base \<longrightarrow> \<not> isPathSeparator (p ! i)"
    using base in_base by blast
  have stop': "?a = start \<or> (start < ?a \<and> isPathSeparator (p ! (?a - 1)))"
    using start stop by auto
  have b: "?b = Suc ?k + length suf"
    by simp
  have pk: "p ! ?k = CHR ''.''"
    by (simp add: p nth_append)
  have in_suf: "p ! i \<in> set suf" if "Suc ?k \<le> i" "i < Suc ?k + length suf" for i
  proof -
    have "((front @ pre @ [CHR ''.'']) @ suf @ trail) ! i \<in> set suf"
      using that by (intro nth_in_middle) simp_all
    then show ?thesis
      by (simp add: p)
  qed
  have plain: "\<forall>i. Suc ?k \<le> i \<and> i < Suc ?k + length suf \<longrightarrow>
      \<not> isPathSeparator (p ! i) \<and> p ! i \<noteq> CHR ''.''"
    using in_suf base last_dot by (metis Un_iff set_append set_subset_Cons subsetD)
  let ?s2 = "\<lparr>startDot = int ?k, startPart = int start, end' = int ?b,
             matchedSlash = False, preDotState = 0\<rparr>"
  have "extname_loop p start (length p) s0 = extname_loop p start ?b s0"
    using p start trail by (rule scan_trailing) (simp add: s0)
  also have "\<dots> =
        extname_loop p start (Suc ?k)
          (if 0 < length suf \<and> end' s0 = - 1
           then s0\<lparr>end' := int (Suc ?k + length suf), matchedSlash := False\<rparr> else s0)"
    unfolding b using start by (intro loop_plain plain) (simp_all add: s0)
  also have "\<dots> = extname_loop p start ?k ?s2"
    using start pk by (subst loop_dot) (auto simp: s0 algebra_simps)
  finally have upto_dot: "extname_loop p start (length p) s0 = extname_loop p start ?k ?s2" .
  show ?thesis
  proof (cases pre)
    case Nil
    have "extname_loop p start ?a ?s2 = ?s2\<lparr>startPart := int ?a\<rparr>"
      using stop' by (intro loop_stop) simp_all
    then show ?thesis
      using upto_dot Nil by simp
  next
    case (Cons c cs)
    have pa: "p ! ?a = c"
      by (simp add: p Cons nth_append)
    have nonseps': "\<forall>i. ?a \<le> i \<and> i < ?a + Suc (length cs) \<longrightarrow> \<not> isPathSeparator (p ! i)"
      using nonseps by (simp add: Cons)
    have "extname_loop p start (?a + Suc (length cs)) ?s2 =
          extname_loop p start ?a (?s2\<lparr>preDotState := (if p ! ?a = CHR ''.'' then 1 else - 1)\<rparr>)"
      using start nonseps' by (intro loop_before_dot) simp_all
    also have "\<dots> = ?s2\<lparr>preDotState := (if p ! ?a = CHR ''.'' then 1 else - 1)\<rparr>
                       \<lparr>startPart := int ?a\<rparr>"
      using stop' by (intro loop_stop) simp_all
    finally have "extname_loop p start ?k ?s2 =
        ?s2\<lparr>preDotState := (if c = CHR ''.'' then 1 else - 1)\<rparr>\<lparr>startPart := int ?a\<rparr>"
      by (simp add: Cons pa)
    then show ?thesis
      using upto_dot by (simp add: Cons)
  qed
qed

lemma js_slice_middle:
  "js_slice (xs @ ys @ zs) (int (length xs)) (int (length xs + length ys)) = ys"
  by (simp add: js_slice_def)

lemma extname_decomposed:
  assumes p: "p = drive @ dir @ base @ trail"
    and drive: "length drive = (if has_drive_prefix p then 2 else 0)"
    and dir: "dir \<noteq> [] \<longrightarrow> isPathSeparator (last dir) \<and> base \<noteq> []"
    and base: "\<forall>c \<in> set base. \<not> isPathSeparator c"
    and trail: "\<forall>c \<in> set trail. isPathSeparator c"
  shows "extname p = component_extension base"
proof -
  define start where "start = (if has_drive_prefix p then 2 else 0 :: nat)"
  define s0 where "s0 = \<lparr>startDot = - 1, startPart = int start, end' = - 1,
                          matchedSlash = True, preDotState = 0\<rparr>"
  define s where "s = extname_loop p start (length p) s0"
  have ext: "extname p =
      (if startDot s = - 1 \<or> end' s = - 1 \<or> preDotState s = 0 \<or>
          (preDotState s = 1 \<and> startDot s = end' s - 1 \<and> startDot s = startPart s + 1)
       then [] else js_slice p (startDot s) (end' s))"
    by (simp add: extname_def s_def s0_def start_def Let_def)
  let ?front = "drive @ dir"
  have p': "p = ?front @ base @ trail"
    by (simp add: p)
  have start: "start \<le> length ?front"
    using drive by (simp add: start_def)
  have stop: "length ?front = start \<or> isPathSeparator (p ! (length ?front - 1))"
  proof (cases "dir = []")
    case True
    then show ?thesis using drive by (simp add: start_def)
  next
    case False
    then have "p ! (length ?front - 1) = last dir"
      by (cases dir rule: rev_cases) (simp_all add: p nth_append)
    then show ?thesis using dir False by simp
  qed
  show ?thesis
  proof (cases "base = []")
    case True
    then have "dir = []"
      using dir by blast
    then have "s = s0"
      unfolding s_def using True drive trail
      by (intro scan_no_component [where front = drive and trail = trail])
         (simp_all add: p start_def s0_def)
    then show ?thesis
      using True by (simp add: ext s0_def component_extension_def spec_extension_def)
  next
    case nonempty: False
    show ?thesis
    proof (cases "CHR ''.'' \<in> set base")
      case False
      have "s = s0\<lparr>end' := int (length ?front + length base), matchedSlash := False,
                   startPart := int (length ?front)\<rparr>"
        unfolding s_def using p' start stop base trail s0_def nonempty False
        by (rule scan_component_plain)
      then show ?thesis
        using False by (simp add: ext s0_def component_extension_def spec_extension_def)
    next
      case True
      then obtain pre suf where split: "base = pre @ CHR ''.'' # suf" "CHR ''.'' \<notin> set suf"
        using last_dot_split by blast
      have s: "s = \<lparr>startDot = int (length ?front + length pre),
                    startPart = int (length ?front),
                    end' = int (length ?front + length pre + 1 + length suf),
                    matchedSlash = False,
                    preDotState = (if pre = [] then 0 else if hd pre = CHR ''.'' then 1 else - 1)\<rparr>"
        unfolding s_def using p' start stop base trail s0_def split(2)
        unfolding split(1) by (rule scan_component_dot)
      have sl: "js_slice p (int (length ?front + length pre))
                  (int (length ?front + length pre + 1 + length suf)) = CHR ''.'' # suf"
        using js_slice_middle [of "?front @ pre" "CHR ''.'' # suf" trail]
        by (simp add: p split algebra_simps)
      have fields: "startDot s = int (length ?front + length pre)"
        "end' s = int (length ?front + length pre + 1 + length suf)"
        by (simp_all add: s)
      have sl': "js_slice p (startDot s) (end' s) = CHR ''.'' # suf"
        unfolding fields by (rule sl)
      have se: "spec_extension base = CHR ''.'' # suf"
        unfolding split(1) using split(2) by (rule spec_extension_split)
      show ?thesis
      proof (cases pre)
        case Nil
        have "preDotState s = 0"
          by (simp add: s Nil)
        then have "extname p = []"
          by (simp add: ext)
        moreover have "component_extension base = []"
          using split by (simp add: component_extension_def Nil)
        ultimately show ?thesis
          by simp
      next
        case (Cons c cs)
        let ?dotdot = "c = CHR ''.'' \<and> cs = [] \<and> suf = []"
        have cond: "(startDot s = - 1 \<or> end' s = - 1 \<or> preDotState s = 0 \<or>
            (preDotState s = 1 \<and> startDot s = end' s - 1 \<and> startDot s = startPart s + 1))
            = ?dotdot"
          by (auto simp: s Cons)
        have "extname p = (if ?dotdot then [] else CHR ''.'' # suf)"
          by (simp only: ext cond sl')
        moreover have "base = ''..'' \<longleftrightarrow> ?dotdot"
          by (cases cs) (auto simp: split(1) Cons)
        moreover have "CHR ''.'' \<in> set (tl base)"
          by (simp add: split(1) Cons)
        ultimately show ?thesis
          by (simp add: component_extension_def se)
      qed
    qed
  qed
qed


lemma extname_last_component: "extname p = component_extension (last_component p)"
proof -
  define start :: nat where "start = (if has_drive_prefix p then 2 else 0)"
  define rest where "rest = drop start p"
  define r where "r = dropWhile isPathSeparator (rev rest)"
  define drive where "drive = take start p"
  define trail where "trail = rev (takeWhile isPathSeparator (rev rest))"
  define dir where "dir = rev (dropWhile (\<lambda>c. \<not> isPathSeparator c) r)"
  define base where "base = rev (takeWhile (\<lambda>c. \<not> isPathSeparator c) r)"
  have base_eq: "base = last_component p"
    by (simp add: base_def r_def rest_def start_def last_component_def)
  have "rev rest = rev trail @ r"
    by (simp add: trail_def r_def)
  then have rest: "rest = rev r @ trail"
    by (metis rev_append rev_rev_ident)
  have "r = rev base @ rev dir"
    by (simp add: base_def dir_def)
  then have "rev r = dir @ base"
    by simp
  then have "rest = dir @ base @ trail"
    using rest by simp
  moreover have "p = drive @ rest"
    by (simp add: drive_def rest_def)
  ultimately have p: "p = drive @ dir @ base @ trail"
    by simp
  have drive: "length drive = (if has_drive_prefix p then 2 else 0)"
    by (auto simp: drive_def start_def has_drive_prefix_def)
  have dir: "dir \<noteq> [] \<longrightarrow> isPathSeparator (last dir) \<and> base \<noteq> []"
  proof
    assume "dir \<noteq> []"
    then have ne: "dropWhile (\<lambda>c. \<not> isPathSeparator c) r \<noteq> []"
      by (simp add: dir_def)
    then have "isPathSeparator (hd (dropWhile (\<lambda>c. \<not> isPathSeparator c) r))"
      using hd_dropWhile [of "\<lambda>c. \<not> isPathSeparator c" r] by simp
    then have sep: "isPathSeparator (last dir)"
      by (simp add: dir_def last_rev)
    have "r \<noteq> []"
      using ne by auto
    then have "\<not> isPathSeparator (hd r)"
      unfolding r_def by (rule hd_dropWhile)
    then have "takeWhile (\<lambda>c. \<not> isPathSeparator c) r \<noteq> []"
      using \<open>r \<noteq> []\<close> by (simp add: takeWhile_eq_Nil_iff)
    then show "isPathSeparator (last dir) \<and> base \<noteq> []"
      using sep by (simp add: base_def)
  qed
  have base: "\<forall>c \<in> set base. \<not> isPathSeparator c"
    by (auto simp: base_def dest: set_takeWhileD)
  have trail: "\<forall>c \<in> set trail. isPathSeparator c"
    by (auto simp: trail_def dest: set_takeWhileD)
  show ?thesis
    unfolding base_eq [symmetric] using p drive dir base trail by (rule extname_decomposed)
qed

lemma extname_plain_name:
  assumes "\<not> has_drive_prefix p"
    and "\<forall>c \<in> set p. \<not> isPathSeparator c"
    and "p = [] \<or> hd p \<noteq> CHR ''.''"
  shows "extname p = spec_extension p"
proof -
  have d: "dropWhile isPathSeparator (rev p) = rev p"
    using assms(2) by (cases "rev p") auto
  have t: "takeWhile (\<lambda>c. \<not> isPathSeparator c) (rev p) = rev p"
    using assms(2) by (simp add: takeWhile_eq_all_conv)
  have "last_component p = p"
    unfolding last_component_def by (simp only: assms(1) if_False Let_def d t rev_rev_ident)
  moreover have "component_extension p = spec_extension p"
    using assms(3) by (auto simp: component_extension_def)
  ultimately show ?thesis
    by (simp add: extname_last_component)
qed

lemma extname_RUN_EXE: "toLowerCase (extname ''RUN.EXE'') = ''.exe''"
  by code_simp

lemma toLowerCase_exe: "toLowerCase ''.exe'' = ''.exe''"
  by code_simp

text \<open>
  Claim C3, as the specification words it: for a regular file and an extension list,
  the Windows rule takes the substring of the path from its last \<open>.\<close> to its end (empty
  without a \<open>.\<close>), lower-cases it and the entries of the list, and returns \<open>true\<close>
  exactly when it is in the list. This fails for a file named \<open>.exe\<close> and the list
  \<open>[".exe"]\<close>: the substring is \<open>.exe\<close> and is in the list, but \<open>extname\<close> gives the
  empty string for a name whose only dot is its first character, and the rule returns
  \<open>false\<close>.
\<close>

theorem leading_dot_not_extension:
  "isFile owner_exec_file \<and> envPathExt_get windows_host = Some [''.exe''] \<and>
   spec_extension ''.exe'' = ''.exe'' \<and> extname ''.exe'' = [] \<and>
   \<not> (isExecutableWindows windows_host owner_exec_file ''.exe'' =
        (toLowerCase (spec_extension ''.exe'') \<in> set (map toLowerCase [''.exe''])))"
  by code_simp

text \<open>
  Claim C3, amended. For a regular file and an extension list, the Windows rule takes
  the extension of the last component of the path (after a drive prefix, and without
  the trailing separators): the substring from the component's last \<open>.\<close> to its end,
  including the dot, and the empty string when the component has no \<open>.\<close>, when its only
  \<open>.\<close> is its first character, and when it is \<open>..\<close>. It lower-cases this extension and
  every entry of the list and returns \<open>true\<close> exactly when the extension is in the list.
  For a path without drive prefix and separators that does not start with \<open>.\<close>, the
  extension is the substring from the last \<open>.\<close> of the path to its end. The path
  \<open>RUN.EXE\<close> against the list \<open>[".exe"]\<close> gives \<open>true\<close>.
\<close>

theorem isExecutableWindows_extension:
  assumes "isFile stat"
    and "envPathExt_get h = Some pathExts"
  shows "(isExecutableWindows h stat filePath \<longleftrightarrow>
            toLowerCase (component_extension (last_component filePath))
              \<in> set (map toLowerCase pathExts)) \<and>
         (\<not> has_drive_prefix filePath \<and> (\<forall>c \<in> set filePath. \<not> isPathSeparator c) \<and>
            (filePath = [] \<or> hd filePath \<noteq> CHR ''.'') \<longrightarrow>
          (isExecutableWindows h stat filePath \<longleftrightarrow>
             toLowerCase (spec_extension filePath) \<in> set (map toLowerCase pathExts))) \<and>
         isExecutableWindows (h\<lparr>envPathExt_get := Some [''.exe'']\<rparr>) stat ''RUN.EXE''"
proof -
  have rule: "isExecutableWindows h stat filePath \<longleftrightarrow>
      toLowerCase (extname filePath) \<in> set (map toLowerCase pathExts)"
    using assms by (simp add: isExecutableWindows_def)
  have "isExecutableWindows h stat filePath \<longleftrightarrow>
      toLowerCase (component_extension (last_component filePath))
        \<in> set (map toLowerCase pathExts)"
    using rule by (simp only: extname_last_component)
  moreover have "isExecutableWindows h stat filePath \<longleftrightarrow>
      toLowerCase (spec_extension filePath) \<in> set (map toLowerCase pathExts)"
    if "\<not> has_drive_prefix filePath" "\<forall>c \<in> set filePath. \<not> isPathSeparator c"
      "filePath = [] \<or> hd filePath \<noteq> CHR ''.''"
    using rule extname_plain_name [OF that] by simp
  moreover have "isExecutableWindows (h\<lparr>envPathExt_get := Some [''.exe'']\<rparr>) stat ''RUN.EXE''"
    using assms(1) by (simp add: isExecutableWindows_def extname_RUN_EXE toLowerCase_exe)
  ultimately show ?thesis
    by blast
qed

theorem isExecutableWindows_extension_witness:
  "isFile owner_exec_file \<and> envPathExt_get windows_host = Some [''.exe''] \<and>
   last_component ''C:/dir.d/RUN.EXE/'' = ''RUN.EXE'' \<and>
   component_extension ''RUN.EXE'' = ''.EXE'' \<and>
   isExecutableWindows windows_host owner_exec_file ''C:/dir.d/RUN.EXE/'' \<and>
   spec_extension ''run.txt'' = ''.txt'' \<and>
   \<not> isExecutableWindows windows_host owner_exec_file ''run.txt''"
proof -
  have reg: "isFile owner_exec_file"
    by (simp add: owner_exec_file_def)
  have list: "envPathExt_get windows_host = Some [''.exe'']"
    by (simp add: windows_host_def)
  have comp: "last_component ''C:/dir.d/RUN.EXE/'' = ''RUN.EXE''"
    by code_simp
  have ext: "component_extension ''RUN.EXE'' = ''.EXE''"
    by code_simp
  have low: "toLowerCase ''.EXE'' = ''.exe''"
    by code_simp
  have plain: "\<not> has_drive_prefix ''run.txt''" "\<forall>c \<in> set ''run.txt''. \<not> isPathSeparator c"
    "''run.txt'' = [] \<or> hd ''run.txt'' \<noteq> CHR ''.''"
    by (simp_all add: has_drive_prefix_def isPathSeparator_def)
  have ext_txt: "spec_extension ''run.txt'' = ''.txt''"
    by code_simp
  have low_txt: "toLowerCase ''.txt'' = ''.txt''"
    by code_simp
  have "isExecutableWindows windows_host owner_exec_file ''C:/dir.d/RUN.EXE/''"
    using isExecutableWindows_extension [OF reg list, of "''C:/dir.d/RUN.EXE/''"]
    by (simp add: comp ext low toLowerCase_exe)
  moreover have "\<not> isExecutableWindows windows_host owner_exec_file ''run.txt''"
  proof -
    have "isExecutableWindows windows_host owner_exec_file ''run.txt'' \<longleftrightarrow>
        toLowerCase (spec_extension ''run.txt'') \<in> set (map toLowerCase [''.exe''])"
      using isExecutableWindows_extension [OF reg list, of "''run.txt''"] plain by blast
    then show ?thesis
      by (simp add: ext_txt low_txt toLowerCase_exe)
  qed
  ultimately show ?thesis
    using reg list comp ext ext_txt by simp
qed

subsection \<open>The queries\<close>

lemma isExecutable_stat_fails:
  assumes "fsStat h filePath = Inl e"
  shows "isExecutable h filePath options =
           catch_block h (case mayNotExist options of None \<Rightarrow> False | Some b \<Rightarrow> b) e"
  using assms by (simp add: isExecutable_def)

lemma isExecutableSync_stat_fails:
  assumes "fsStatSync h filePath = Inl e"
  shows "isExecutableSync h filePath options =
           catch_block h (case mayNotExist options of None \<Rightarrow> False | Some b \<Rightarrow> b) e"
  using assms by (simp add: isExecutableSync_def)

text \<open>What the \<open>catch\<close> block recovers, and what it throws again.\<close>

lemma catch_block_recovers:
  assumes "mayNotExist'"
    and "(Deno_defined h \<and> instanceof_Deno_NotFound e) \<or> err_code e = Some ''EACCES''"
  shows "catch_block h mayNotExist' e = Inr False"
  using assms by (simp add: catch_block_def)

lemma catch_block_rethrows:
  assumes "\<not> mayNotExist' \<or> (\<not> is_not_found e \<and> \<not> is_permission_denied e)"
  shows "catch_block h mayNotExist' e = Inl e"
  using assms by (auto simp: catch_block_def is_not_found_def is_permission_denied_def)

text \<open>
  Claim C1. With \<open>mayNotExist\<close> set, a query whose stat fails because the path does not
  exist, or because access to it is denied, returns \<open>false\<close>. The code does so for a
  \<open>Deno.errors.NotFound\<close> (when there is a global \<open>Deno\<close>) and for the code \<open>EACCES\<close>. It
  does not for the error that \<open>node:fs\<close> throws under Node.js for a missing path, whose
  code is \<open>ENOENT\<close>: that error is thrown again. The theorem evaluates both queries
  there.
\<close>

theorem mayNotExist_enoent_rethrown:
  "isExecutable node_host ''/missing/path'' \<lparr>mayNotExist = Some True, gid = None, uid = None\<rparr>
     = Inl enoent \<and>
   isExecutableSync node_host ''/missing/path'' \<lparr>mayNotExist = Some True, gid = None, uid = None\<rparr>
     = Inl enoent \<and>
   is_not_found enoent"
  by (simp add: isExecutable_def isExecutableSync_def node_host_def node_stat_def
      catch_block_def enoent_def is_not_found_def)

text \<open>
  Claim C7. When the stat fails and the failure is not one to recover (\<open>mayNotExist\<close> is
  not set, or the failure is neither a missing path nor a denied access), both queries
  throw the value that the stat threw, unchanged: same kind, same code, same message.
\<close>

theorem failure_propagates_unchanged:
  assumes "fsStat h filePath = Inl e"
    and "fsStatSync h filePath = Inl e"
    and "mayNotExist options \<noteq> Some True \<or>
         (\<not> is_not_found e \<and> \<not> is_permission_denied e)"
  shows "isExecutable h filePath options = Inl e \<and>
         isExecutableSync h filePath options = Inl e"
proof -
  let ?m = "case mayNotExist options of None \<Rightarrow> False | Some b \<Rightarrow> b"
  have "\<not> ?m \<or> (\<not> is_not_found e \<and> \<not> is_permission_denied e)"
    using assms(3) by (auto split: option.splits)
  then have "catch_block h ?m e = Inl e"
    by (rule catch_block_rethrows)
  then show ?thesis
    by (simp add: isExecutable_stat_fails [OF assms(1)] isExecutableSync_stat_fails [OF assms(2)])
qed

theorem failure_propagates_unchanged_witness:
  "fsStat node_host ''/dev/broken'' = Inl eio \<and>
   fsStatSync node_host ''/dev/broken'' = Inl eio \<and>
   \<not> is_not_found eio \<and> \<not> is_permission_denied eio \<and>
   isExecutable node_host ''/dev/broken'' \<lparr>mayNotExist = Some True, gid = None, uid = None\<rparr>
     = Inl eio \<and>
   isExecutableSync node_host ''/dev/broken'' \<lparr>mayNotExist = Some True, gid = None, uid = None\<rparr>
     = Inl eio"
  using failure_propagates_unchanged [of node_host "''/dev/broken''" eio
      "\<lparr>mayNotExist = Some True, gid = None, uid = None\<rparr>"]
  by (simp add: node_host_def node_stat_def eio_def is_not_found_def is_permission_denied_def)

text \<open>
  Claim C8. For every path and every options value, when the two stat functions give
  the same outcome for the path (the same stat, or the same failure), \<open>isExecutable\<close>
  and \<open>isExecutableSync\<close> give the same outcome: the same boolean or the same thrown
  value.
\<close>

theorem isExecutable_eq_isExecutableSync:
  assumes "fsStat h filePath = fsStatSync h filePath"
  shows "isExecutable h filePath options = isExecutableSync h filePath options"
  using assms by (simp add: isExecutable_def isExecutableSync_def)

theorem isExecutable_eq_isExecutableSync_witness:
  "fsStat node_host ''/bin/tool'' = fsStatSync node_host ''/bin/tool'' \<and>
   isExecutable node_host ''/bin/tool'' \<lparr>mayNotExist = None, gid = None, uid = Some 500\<rparr>
     = isExecutableSync node_host ''/bin/tool'' \<lparr>mayNotExist = None, gid = None, uid = Some 500\<rparr> \<and>
   isExecutableSync node_host ''/bin/tool'' \<lparr>mayNotExist = None, gid = None, uid = Some 500\<rparr>
     = Inr True"
  using isExecutable_eq_isExecutableSync [of node_host "''/bin/tool''"
      "\<lparr>mayNotExist = None, gid = None, uid = Some 500\<rparr>"]
  by (simp add: node_host_def node_stat_def isExecutableSync_def owner_exec_file_def
      isExecutablePosix_regular [where og = 1000 and ou = 500] ownGid_def ownUid_def)

lemma catch_block_new_Error: "catch_block h mayNotExist' (new_Error msg) = Inl (new_Error msg)"
  by (simp add: catch_block_def new_Error_def)

text \<open>
  The POSIX rule on a regular file with its three attributes, with the identity written
  out: each id is the option when it is given and the process's id otherwise; without
  a gid, and then without a uid, the rule throws.
\<close>

lemma isExecutablePosix_by_identity:
  assumes "isFile stat"
    and "stat_mode stat = Some m"
    and "stat_uid stat = Some ownerUserId"
    and "stat_gid stat = Some ownerGroupId"
  shows "isExecutablePosix h stat options =
     (case (case gid options of Some v \<Rightarrow> Some v
            | None \<Rightarrow> if Deno_defined h then Deno_gid h else getgid h) of
        None \<Rightarrow> Inl (new_Error ''Unable to get the group ID of the process!'')
      | Some gid' \<Rightarrow>
          (case (case uid options of Some v \<Rightarrow> Some v
                 | None \<Rightarrow> if Deno_defined h then Deno_uid h else getuid h) of
             None \<Rightarrow> Inl (new_Error ''Unable to get the user ID of the process!'')
           | Some uid' \<Rightarrow>
               Inr (bit m 0 \<or>
                    (bit m 3 \<and> gid' = ownerGroupId) \<or>
                    (bit m 6 \<and> uid' = ownerUserId) \<or>
                    ((bit m 6 \<or> bit m 3) \<and> uid' = 0))))"
proof -
  have og: "ownGid h options = (case gid options of Some v \<Rightarrow> Some v
      | None \<Rightarrow> if Deno_defined h then Deno_gid h else getgid h)"
    by (simp add: ownGid_def split: option.splits)
  have ou: "ownUid h options = (case uid options of Some v \<Rightarrow> Some v
      | None \<Rightarrow> if Deno_defined h then Deno_uid h else getuid h)"
    by (simp add: ownUid_def split: option.splits)
  show ?thesis
  proof (cases "ownGid h options")
    case None
    then show ?thesis
      using assms(1) og by (simp add: isExecutablePosix_def)
  next
    case g: (Some gid')
    show ?thesis
    proof (cases "ownUid h options")
      case None
      then show ?thesis
        using assms(1) g og ou by (simp add: isExecutablePosix_def)
    next
      case u: (Some uid')
      have "isExecutablePosix h stat options =
          Inr (bit m 0 \<or> (bit m 3 \<and> gid' = ownerGroupId) \<or> (bit m 6 \<and> ownerUserId = uid') \<or>
               ((bit m 6 \<or> bit m 3) \<and> uid' = 0))"
        using assms(1) g u assms(4) assms(2) assms(3) by (rule isExecutablePosix_regular)
      moreover have "(ownerUserId = uid') = (uid' = ownerUserId)"
        by auto
      ultimately show ?thesis
        using g u og ou by simp
    qed
  qed
qed

lemma isExecutable_posix_stat:
  assumes "\<not> isOSWindows h" and "fsStat h filePath = Inr stat"
  shows "isExecutable h filePath options =
     (case isExecutablePosix h stat options of
        Inr result \<Rightarrow> Inr result
      | Inl error \<Rightarrow>
          catch_block h (case mayNotExist options of None \<Rightarrow> False | Some b \<Rightarrow> b) error)"
  using assms by (simp add: isExecutable_def)

lemma isExecutableSync_posix_stat:
  assumes "\<not> isOSWindows h" and "fsStatSync h filePath = Inr stat"
  shows "isExecutableSync h filePath options =
     (case isExecutablePosix h stat options of
        Inr result \<Rightarrow> Inr result
      | Inl error \<Rightarrow>
          catch_block h (case mayNotExist options of None \<Rightarrow> False | Some b \<Rightarrow> b) error)"
  using assms by (simp add: isExecutableSync_def)

text \<open>
  Claim C9, as the specification words it: the identity of the permission check comes
  from the options when they are given and from the process otherwise, and a query with
  the option \<open>uid = 0\<close> on a regular file with mode \<open>0o100\<close> that another user owns returns
  \<open>true\<close> regardless of the process's identity. The last part fails on a POSIX host whose
  process has no group id (\<open>getgid\<close> is missing): the option gives the uid only, the gid
  is looked up in the process, and both queries throw
  "Unable to get the group ID of the process!".
\<close>

theorem uid_override_without_gid_throws:
  "\<not> isOSWindows anonymous_host \<and>
   fsStat anonymous_host ''/bin/tool'' = Inr owner_exec_file \<and>
   fsStatSync anonymous_host ''/bin/tool'' = Inr owner_exec_file \<and>
   isFile owner_exec_file \<and> stat_mode owner_exec_file = Some 64 \<and>
   stat_uid owner_exec_file = Some 500 \<and>
   isExecutable anonymous_host ''/bin/tool'' \<lparr>mayNotExist = None, gid = None, uid = Some 0\<rparr>
     = Inl (new_Error ''Unable to get the group ID of the process!'') \<and>
   isExecutableSync anonymous_host ''/bin/tool'' \<lparr>mayNotExist = None, gid = None, uid = Some 0\<rparr>
     = Inl (new_Error ''Unable to get the group ID of the process!'')"
  by (simp add: anonymous_host_def node_host_def node_stat_def owner_exec_file_def
      isExecutable_def isExecutableSync_def isExecutablePosix_def ownGid_def
      catch_block_def new_Error_def)

text \<open>
  Claim C9, amended. On a POSIX host, for a regular file whose mode and owner ids are
  present, the permission check of both queries uses as gid the option \<open>gid\<close> when it is
  given and the process's group id otherwise, and as uid the option \<open>uid\<close> when it is
  given and the process's user id otherwise; the result is the POSIX rule on these two
  ids. When neither the options nor the process give a gid the query throws
  "Unable to get the group ID of the process!", and when there is a gid but no uid it
  throws "Unable to get the user ID of the process!". In particular a query with the
  option \<open>uid = 0\<close>, on a regular file with mode \<open>0o100\<close> that another user owns, returns
  \<open>true\<close> whatever the process's user id is, available or not, whenever the options or
  the process give a gid, and throws the group-id error when they do not.
\<close>

theorem identity_from_options_or_process:
  assumes "\<not> isOSWindows h"
    and "fsStat h filePath = Inr stat"
    and "fsStatSync h filePath = Inr stat"
    and "isFile stat"
    and "stat_mode stat = Some m"
    and "stat_uid stat = Some ownerUserId"
    and "stat_gid stat = Some ownerGroupId"
  shows "isExecutable h filePath options =
           (case (case gid options of Some v \<Rightarrow> Some v
                  | None \<Rightarrow> if Deno_defined h then Deno_gid h else getgid h) of
              None \<Rightarrow> Inl (new_Error ''Unable to get the group ID of the process!'')
            | Some gid' \<Rightarrow>
                (case (case uid options of Some v \<Rightarrow> Some v
                       | None \<Rightarrow> if Deno_defined h then Deno_uid h else getuid h) of
                   None \<Rightarrow> Inl (new_Error ''Unable to get the user ID of the process!'')
                 | Some uid' \<Rightarrow>
                     Inr (bit m 0 \<or>
                          (bit m 3 \<and> gid' = ownerGroupId) \<or>
                          (bit m 6 \<and> uid' = ownerUserId) \<or>
                          ((bit m 6 \<or> bit m 3) \<and> uid' = 0)))) \<and>
         isExecutableSync h filePath options = isExecutable h filePath options \<and>
         (uid options = Some 0 \<and> m = 64 \<and> ownerUserId \<noteq> 0 \<longrightarrow>
            isExecutable h filePath options =
              (case (case gid options of Some v \<Rightarrow> Some v
                     | None \<Rightarrow> if Deno_defined h then Deno_gid h else getgid h) of
                 None \<Rightarrow> Inl (new_Error ''Unable to get the group ID of the process!'')
               | Some gid' \<Rightarrow> Inr True))"
proof -
  let ?rule = "isExecutablePosix h stat options"
  let ?m = "case mayNotExist options of None \<Rightarrow> False | Some b \<Rightarrow> b"
  note rule = isExecutablePosix_by_identity [OF assms(4-7), of h options]
  have pass: "(case ?rule of Inr result \<Rightarrow> Inr result | Inl error \<Rightarrow> catch_block h ?m error)
      = ?rule"
    unfolding rule by (simp add: catch_block_new_Error split: option.splits)
  have async: "isExecutable h filePath options = ?rule"
    using isExecutable_posix_stat [OF assms(1,2), of options] pass by simp
  have sync: "isExecutableSync h filePath options = ?rule"
    using isExecutableSync_posix_stat [OF assms(1,3), of options] pass by simp
  have main: "isExecutable h filePath options =
      (case (case gid options of Some v \<Rightarrow> Some v
             | None \<Rightarrow> if Deno_defined h then Deno_gid h else getgid h) of
         None \<Rightarrow> Inl (new_Error ''Unable to get the group ID of the process!'')
       | Some gid' \<Rightarrow>
           (case (case uid options of Some v \<Rightarrow> Some v
                  | None \<Rightarrow> if Deno_defined h then Deno_uid h else getuid h) of
              None \<Rightarrow> Inl (new_Error ''Unable to get the user ID of the process!'')
            | Some uid' \<Rightarrow>
                Inr (bit m 0 \<or>
                     (bit m 3 \<and> gid' = ownerGroupId) \<or>
                     (bit m 6 \<and> uid' = ownerUserId) \<or>
                     ((bit m 6 \<or> bit m 3) \<and> uid' = 0))))"
    using async rule by simp
  have root: "isExecutable h filePath options =
      (case (case gid options of Some v \<Rightarrow> Some v
             | None \<Rightarrow> if Deno_defined h then Deno_gid h else getgid h) of
         None \<Rightarrow> Inl (new_Error ''Unable to get the group ID of the process!'')
       | Some gid' \<Rightarrow> Inr True)"
    if "uid options = Some 0" "m = 64" "ownerUserId \<noteq> 0"
    unfolding main using that by (simp split: option.splits)
  show ?thesis
    using main sync async root by simp
qed

theorem identity_from_options_or_process_witness:
  "\<not> isOSWindows node_host \<and>
   fsStat node_host ''/bin/tool'' = Inr owner_exec_file \<and>
   isFile owner_exec_file \<and> stat_mode owner_exec_file = Some 64 \<and>
   stat_uid owner_exec_file = Some 500 \<and> stat_gid owner_exec_file = Some 50 \<and>
   getuid node_host = Some 1000 \<and> getgid node_host = Some 1000 \<and>
   isExecutable node_host ''/bin/tool'' \<lparr>mayNotExist = None, gid = None, uid = None\<rparr>
     = Inr False \<and>
   isExecutable node_host ''/bin/tool'' \<lparr>mayNotExist = None, gid = None, uid = Some 500\<rparr>
     = Inr True \<and>
   isExecutable (node_host\<lparr>getuid := Some 500\<rparr>) ''/bin/tool''
     \<lparr>mayNotExist = None, gid = None, uid = None\<rparr> = Inr True \<and>
   isExecutable (node_host\<lparr>getuid := Some 500\<rparr>) ''/bin/tool''
     \<lparr>mayNotExist = None, gid = None, uid = Some 7\<rparr> = Inr False \<and>
   isExecutable node_host ''/bin/tool'' \<lparr>mayNotExist = None, gid = None, uid = Some 0\<rparr>
     = Inr True \<and>
   isExecutableSync (node_host\<lparr>getuid := None\<rparr>) ''/bin/tool''
     \<lparr>mayNotExist = None, gid = None, uid = Some 0\<rparr> = Inr True \<and>
   isExecutable (node_host\<lparr>getuid := None\<rparr>) ''/bin/tool''
     \<lparr>mayNotExist = None, gid = None, uid = None\<rparr>
     = Inl (new_Error ''Unable to get the user ID of the process!'') \<and>
   stat_mode group_exec_file = Some 8 \<and> stat_gid group_exec_file = Some 50 \<and>
   isExecutable group_file_host ''/bin/tool'' \<lparr>mayNotExist = None, gid = None, uid = None\<rparr>
     = Inr False \<and>
   isExecutable group_file_host ''/bin/tool'' \<lparr>mayNotExist = None, gid = Some 50, uid = None\<rparr>
     = Inr True \<and>
   isExecutableSync (group_file_host\<lparr>getgid := Some 50\<rparr>) ''/bin/tool''
     \<lparr>mayNotExist = None, gid = None, uid = None\<rparr> = Inr True \<and>
   isExecutableSync (group_file_host\<lparr>getgid := Some 50\<rparr>) ''/bin/tool''
     \<lparr>mayNotExist = None, gid = Some 9, uid = None\<rparr> = Inr False"
proof -
  let ?none = "\<lparr>mayNotExist = None, gid = None, uid = None\<rparr>"
  have nh: "Deno_defined node_host = False" "\<not> isOSWindows node_host"
    "getgid node_host = Some 1000" "getuid node_host = Some 1000"
    "fsStat node_host ''/bin/tool'' = Inr owner_exec_file"
    "fsStatSync node_host ''/bin/tool'' = Inr owner_exec_file"
    by (simp_all add: node_host_def node_stat_def)
  have gh: "Deno_defined group_file_host = False" "\<not> isOSWindows group_file_host"
    "getgid group_file_host = Some 1000" "getuid group_file_host = Some 1000"
    "fsStat group_file_host ''/bin/tool'' = Inr group_exec_file"
    "fsStatSync group_file_host ''/bin/tool'' = Inr group_exec_file"
    by (simp_all add: group_file_host_def node_host_def)
  have attrs: "isFile owner_exec_file" "stat_mode owner_exec_file = Some 64"
    "stat_uid owner_exec_file = Some 500" "stat_gid owner_exec_file = Some 50"
    by (simp_all add: owner_exec_file_def)
  have attrs': "isFile group_exec_file" "stat_mode group_exec_file = Some 8"
    "stat_uid group_exec_file = Some 500" "stat_gid group_exec_file = Some 50"
    by (simp_all add: group_exec_file_def)
  note owner = identity_from_options_or_process [OF nh(2,5,6) attrs]
  have "\<not> isOSWindows (node_host\<lparr>getuid := pu\<rparr>)"
    "fsStat (node_host\<lparr>getuid := pu\<rparr>) ''/bin/tool'' = Inr owner_exec_file"
    "fsStatSync (node_host\<lparr>getuid := pu\<rparr>) ''/bin/tool'' = Inr owner_exec_file" for pu
    by (simp_all add: nh)
  note owner' = identity_from_options_or_process [OF this attrs]
  note group = identity_from_options_or_process [OF gh(2,5,6) attrs']
  have "\<not> isOSWindows (group_file_host\<lparr>getgid := pg\<rparr>)"
    "fsStat (group_file_host\<lparr>getgid := pg\<rparr>) ''/bin/tool'' = Inr group_exec_file"
    "fsStatSync (group_file_host\<lparr>getgid := pg\<rparr>) ''/bin/tool'' = Inr group_exec_file" for pg
    by (simp_all add: gh)
  note group' = identity_from_options_or_process [OF this attrs']
  have w1: "isExecutable node_host ''/bin/tool'' ?none = Inr False"
    using owner [of ?none] by (simp add: nh)
  have w2: "isExecutable node_host ''/bin/tool''
      \<lparr>mayNotExist = None, gid = None, uid = Some 500\<rparr> = Inr True"
    using owner [of "\<lparr>mayNotExist = None, gid = None, uid = Some 500\<rparr>"] by (simp add: nh)
  have w3: "isExecutable (node_host\<lparr>getuid := Some 500\<rparr>) ''/bin/tool'' ?none = Inr True"
    using owner' [of "Some 500" ?none] by (simp add: nh)
  have w4: "isExecutable (node_host\<lparr>getuid := Some 500\<rparr>) ''/bin/tool''
      \<lparr>mayNotExist = None, gid = None, uid = Some 7\<rparr> = Inr False"
    using owner' [of "Some 500" "\<lparr>mayNotExist = None, gid = None, uid = Some 7\<rparr>"]
    by (simp add: nh)
  have w5: "isExecutable node_host ''/bin/tool''
      \<lparr>mayNotExist = None, gid = None, uid = Some 0\<rparr> = Inr True"
    using owner [of "\<lparr>mayNotExist = None, gid = None, uid = Some 0\<rparr>"] by (simp add: nh)
  have w6: "isExecutableSync (node_host\<lparr>getuid := None\<rparr>) ''/bin/tool''
      \<lparr>mayNotExist = None, gid = None, uid = Some 0\<rparr> = Inr True"
    using owner' [of None "\<lparr>mayNotExist = None, gid = None, uid = Some 0\<rparr>"]
    by (simp add: nh)
  have w7: "isExecutable (node_host\<lparr>getuid := None\<rparr>) ''/bin/tool'' ?none
      = Inl (new_Error ''Unable to get the user ID of the process!'')"
    using owner' [of None ?none] by (simp add: nh)
  have w8: "isExecutable group_file_host ''/bin/tool'' ?none = Inr False"
    using group [of ?none] by (simp add: gh)
  have w9: "isExecutable group_file_host ''/bin/tool''
      \<lparr>mayNotExist = None, gid = Some 50, uid = None\<rparr> = Inr True"
    using group [of "\<lparr>mayNotExist = None, gid = Some 50, uid = None\<rparr>"] by (simp add: gh)
  have w10: "isExecutableSync (group_file_host\<lparr>getgid := Some 50\<rparr>) ''/bin/tool'' ?none
      = Inr True"
    using group' [of "Some 50" ?none] by (simp add: gh)
  have w11: "isExecutableSync (group_file_host\<lparr>getgid := Some 50\<rparr>) ''/bin/tool''
      \<lparr>mayNotExist = None, gid = Some 9, uid = None\<rparr> = Inr False"
    using group' [of "Some 50" "\<lparr>mayNotExist = None, gid = Some 9, uid = None\<rparr>"]
    by (simp add: gh)
  show ?thesis
    using nh attrs attrs' w1 w2 w3 w4 w5 w6 w7 w8 w9 w10 w11 by simp
qed

end
